theory Spec2Isabelle
  imports Main
begin

section \<open>The appointment server (\<open>server.js\<close>)\<close>

text \<open>
  The program is an Express application with two routes on \<open>/api/appointments\<close>:
  \<open>GET\<close> lists the appointments and \<open>POST\<close> books one. The appointments live in the
  file \<open>appointments.json\<close> or, when the constant \<open>IS_VERCEL\<close> is set, in the variable
  \<open>inMemoryAppointments\<close>.

  The model is a state machine. Its state is the data file and the variable; a handler
  takes the state and returns its HTTP response, the state it leaves and the calls it
  made to the outside (file system, mail transport). What a handler reads from the
  outside (the clock, whether a write goes through, the mail settings and what the
  mail server answers) is an argument of the handler.

  Scope of the model. Every property of a request body and of a stored appointment is
  a string or \<open>undefined\<close>, as the booking form sends them; the other JSON values
  (numbers, booleans, \<open>null\<close>, arrays, objects) are not modelled as property values.
  The elements of a stored array are objects. Requests are handled one after another.
  The handler of \<open>POST\<close> reads, checks, appends and saves without an \<open>await\<close> in
  between (its first \<open>await\<close> is in the notification code, after the save), so its
  change of the state is one step also where requests overlap. Every promise the
  handler awaits settles.
\<close>

subsection \<open>JavaScript values\<close>

text \<open>
  A property that is a string or \<open>undefined\<close>: \<open>None\<close> is \<open>undefined\<close> (also a property
  the object does not have, which reads as \<open>undefined\<close> and which \<open>JSON.stringify\<close>
  leaves out). \<open>truthy\<close> is JavaScript's conversion to a boolean, as \<open>!x\<close>, \<open>x && y\<close>,
  \<open>x || y\<close> and \<open>if (x)\<close> apply it: \<open>undefined\<close> and the empty string are falsy.
  \<open>===\<close> on such values is equality.
\<close>

definition truthy :: "string option \<Rightarrow> bool" where
  "truthy x = (case x of None \<Rightarrow> False | Some str \<Rightarrow> str \<noteq> [])"

definition or_else :: "string option \<Rightarrow> string option \<Rightarrow> string option" where
  \<comment> \<open>\<open>x || y\<close>\<close>
  "or_else x y = (if truthy x then x else y)"

text \<open>
  \<open>Date.now().toString()\<close>: the clock's reading is an integer number of milliseconds,
  and \<open>toString\<close> writes it in decimal, with a minus sign when it is negative.
\<close>

definition digit :: "nat \<Rightarrow> char" where
  "digit d = ''0123456789'' ! d"

fun decimal :: "nat \<Rightarrow> string" where
  "decimal n = (if n < 10 then [digit n] else decimal (n div 10) @ [digit (n mod 10)])"

declare decimal.simps [simp del]

definition toString :: "int \<Rightarrow> string" where
  "toString i = (if i < 0 then CHR ''-'' # decimal (nat (- i)) else decimal (nat i))"

subsection \<open>Requests, appointments and storage\<close>

text \<open>
  \<open>req.body\<close> as line 83 destructures it, and the object \<open>newAppointment\<close> of lines
  115 to 125, which has the same seven properties and \<open>id\<close> and \<open>createdAt\<close>.
\<close>

record req_body =
  appointment_date :: "string option"
  appointment_time :: "string option"
  patientName :: "string option"
  patientEmail :: "string option"
  patientPhone :: "string option"
  patientAdhaar :: "string option"
  concern :: "string option"

record appointment = req_body +
  id_appt :: "string option"
  createdAt :: "string option"

text \<open>
  What \<open>JSON.parse\<close> returns, and what the variable \<open>inMemoryAppointments\<close> holds: an
  array of appointments, or a value that is not an array (it has no method \<open>some\<close>).
  \<open>DATA_FILE\<close> is modelled by what reading and parsing it gives: \<open>existsSync\<close> is false
  (\<open>Missing\<close>), \<open>readFileSync\<close> throws, \<open>JSON.parse\<close> throws, or a value is returned.
\<close>

datatype parsed = Not_array | Array "appointment list"

datatype datafile = Missing | Read_fails | Parse_fails | Holds parsed

fun read_and_parse :: "datafile \<Rightarrow> parsed option" where
  \<comment> \<open>\<open>JSON.parse(fs.readFileSync(DATA_FILE))\<close>; \<open>None\<close> when either call throws\<close>
  "read_and_parse (Holds d) = Some d"
| "read_and_parse _ = None"

record state =
  data_file :: datafile
  inMemoryAppointments :: parsed

text \<open>
  Lines 45 to 59, the start of the process. Where the file does not exist it is written
  with an empty array; that write is not in a \<open>try\<close>, so where it throws the process ends
  (\<open>None\<close>).
\<close>

definition startup :: "bool \<Rightarrow> bool \<Rightarrow> datafile \<Rightarrow> state option" where
  "startup IS_VERCEL writable f =
     (if IS_VERCEL then Some \<lparr>data_file = f, inMemoryAppointments = Array []\<rparr>
      else if f = Missing \<and> \<not> writable then None
      else
        let f' = (if f = Missing then Holds (Array []) else f) in
        Some \<lparr>data_file = f',
              inMemoryAppointments =
                (case read_and_parse f' of Some d \<Rightarrow> d | None \<Rightarrow> Array [])\<rparr>)"

subsection \<open>The outside of a request\<close>

text \<open>
  A promise of the mail transport resolves, or rejects with an error whose \<open>code\<close> is the
  string (\<open>EAUTH\<close> or another). \<open>mail_env\<close> is what the notification code reads:
  the variables of \<open>.env\<close>, reloaded by \<open>getEnvConfig\<close>, and the outcomes of
  \<open>transporter.verify()\<close> and of the two calls of \<open>transporter.sendMail\<close>.
  \<open>env\<close> adds the two readings of the clock (lines 116 and 124; \<open>toISOString\<close> is
  the library's, so its result is taken as given) and whether \<open>fs.writeFileSync\<close> of
  line 136 returns.
\<close>

datatype settled = Resolves | Rejects string

record mail_env =
  EMAIL_USER :: "string option"
  EMAIL_PASS :: "string option"
  EMAIL_TO :: "string option"
  verify :: settled
  sendMail_admin :: settled
  sendMail_patient :: settled

record env =
  date_now :: int
  iso_now :: string
  write_succeeds :: bool
  mail :: mail_env

text \<open>
  The calls a handler makes to the outside, in order. A message has the \<open>from\<close> and
  \<open>to\<close> of the options passed to \<open>sendMail\<close>; its subject and bodies are templates
  over the request and are left out. Console output is not modelled.
\<close>

record message =
  msg_from :: "string option"
  msg_to :: "string option"

datatype effect =
    Read_data_file
  | Write_data_file "appointment list" bool
  | Verify settled
  | Send_mail message settled

datatype json =
    Error_body string
  | Appointment_body appointment
  | Appointments_body parsed

datatype response = Response nat json

record outcome =
  response :: response
  after :: state
  effects :: "effect list"

subsection \<open>\<open>GET /api/appointments\<close> (lines 62 to 78)\<close>

definition get_appointments :: "bool \<Rightarrow> state \<Rightarrow> outcome" where
  "get_appointments IS_VERCEL s =
     (if IS_VERCEL then
        \<lparr>response = Response 200 (Appointments_body (inMemoryAppointments s)),
         after = s, effects = []\<rparr>
      else
        (case read_and_parse (data_file s) of
           Some appointments \<Rightarrow>
             \<lparr>response = Response 200 (Appointments_body appointments),
              after = s, effects = [Read_data_file]\<rparr>
         | None \<Rightarrow>
             \<lparr>response = Response 500 (Error_body ''Failed to read appointments''),
              after = s, effects = [Read_data_file]\<rparr>))"

subsection \<open>\<open>POST /api/appointments\<close> (lines 81 to 310)\<close>

text \<open>Lines 90 to 103: the array the handler works on, and the reads it took.\<close>

definition load :: "bool \<Rightarrow> state \<Rightarrow> parsed" where
  "load IS_VERCEL s =
     (if IS_VERCEL then inMemoryAppointments s
      else (case read_and_parse (data_file s) of Some d \<Rightarrow> d | None \<Rightarrow> Array []))"

definition load_effects :: "bool \<Rightarrow> effect list" where
  "load_effects IS_VERCEL = (if IS_VERCEL then [] else [Read_data_file])"

text \<open>Lines 106 to 109.\<close>

definition isTaken :: "appointment list \<Rightarrow> req_body \<Rightarrow> bool" where
  "isTaken appointments b =
     list_ex (\<lambda>appt. appointment_date appt = appointment_date b \<and>
                     appointment_time appt = appointment_time b) appointments"

text \<open>Lines 115 to 125.\<close>

definition newAppointment :: "env \<Rightarrow> req_body \<Rightarrow> appointment" where
  "newAppointment e b =
     \<lparr>appointment_date = appointment_date b,
      appointment_time = appointment_time b,
      patientName = patientName b,
      patientEmail = patientEmail b,
      patientPhone = patientPhone b,
      patientAdhaar = patientAdhaar b,
      concern = concern b,
      id_appt = Some (toString (date_now e)),
      createdAt = Some (iso_now e)\<rparr>"

text \<open>
  Lines 129 to 141. In the file mode a write that throws is caught, and the array is
  assigned to \<open>inMemoryAppointments\<close>. (With \<open>IS_VERCEL\<close> the array pushed to is the
  variable's own, so the assignment of line 132 changes nothing more.)
\<close>

definition save :: "bool \<Rightarrow> env \<Rightarrow> appointment list \<Rightarrow> state \<Rightarrow> state" where
  "save IS_VERCEL e appointments s =
     (if IS_VERCEL then s\<lparr>inMemoryAppointments := Array appointments\<rparr>
      else if write_succeeds e then s\<lparr>data_file := Holds (Array appointments)\<rparr>
      else s\<lparr>inMemoryAppointments := Array appointments\<rparr>)"

definition save_effects :: "bool \<Rightarrow> env \<Rightarrow> appointment list \<Rightarrow> effect list" where
  "save_effects IS_VERCEL e appointments =
     (if IS_VERCEL then [] else [Write_data_file appointments (write_succeeds e)])"

text \<open>
  Lines 145 to 302, the notification. Each \<open>await\<close> stands in a \<open>try\<close> of its own whose
  \<open>catch\<close> only prints, so a rejection ends nothing; \<open>createTransport\<close> builds an object
  and does not throw.
\<close>

definition notify :: "mail_env \<Rightarrow> req_body \<Rightarrow> effect list" where
  "notify m b =
     (if truthy (EMAIL_USER m) \<and> truthy (EMAIL_PASS m) then
        [Verify (verify m),
         Send_mail \<lparr>msg_from = EMAIL_USER m, msg_to = or_else (EMAIL_TO m) (EMAIL_USER m)\<rparr>
           (sendMail_admin m)]
        @ (if truthy (patientEmail b) then
             [Send_mail \<lparr>msg_from = EMAIL_USER m, msg_to = patientEmail b\<rparr>
                (sendMail_patient m)]
           else [])
      else [])"

text \<open>
  The handler. \<open>appointments.some\<close> of line 106 throws a \<open>TypeError\<close> where the value
  loaded is not an array; the \<open>catch\<close> of line 306 answers 500.
\<close>

definition post_appointments :: "bool \<Rightarrow> env \<Rightarrow> req_body \<Rightarrow> state \<Rightarrow> outcome" where
  "post_appointments IS_VERCEL e b s =
     (if \<not> truthy (appointment_date b) \<or> \<not> truthy (appointment_time b)
         \<or> \<not> truthy (patientName b) then
        \<lparr>response = Response 400 (Error_body ''Missing required fields''),
         after = s, effects = []\<rparr>
      else
        (case load IS_VERCEL s of
           Not_array \<Rightarrow>
             \<lparr>response = Response 500 (Error_body ''Failed to save appointment''),
              after = s, effects = load_effects IS_VERCEL\<rparr>
         | Array appointments \<Rightarrow>
             if isTaken appointments b then
               \<lparr>response = Response 409 (Error_body ''This time slot is already booked.''),
                after = s, effects = load_effects IS_VERCEL\<rparr>
             else
               let newAppt = newAppointment e b;
                   appointments' = appointments @ [newAppt]
               in \<lparr>response = Response 201 (Appointment_body newAppt),
                   after = save IS_VERCEL e appointments' s,
                   effects = load_effects IS_VERCEL
                     @ save_effects IS_VERCEL e appointments'
                     @ notify (mail e) b\<rparr>))"

subsection \<open>Sequences of requests\<close>

datatype request = POST env req_body | GET

fun handle :: "bool \<Rightarrow> request \<Rightarrow> state \<Rightarrow> outcome" where
  "handle IS_VERCEL (POST e b) s = post_appointments IS_VERCEL e b s"
| "handle IS_VERCEL GET s = get_appointments IS_VERCEL s"

fun serve :: "bool \<Rightarrow> request list \<Rightarrow> state \<Rightarrow> response list \<times> state" where
  "serve IS_VERCEL [] s = ([], s)"
| "serve IS_VERCEL (r # rs) s =
     (let out = handle IS_VERCEL r s;
          (resps, s') = serve IS_VERCEL rs (after out)
      in (response out # resps, s'))"

text \<open>
  The collection the mode keeps, as \<open>GET\<close> would list it: the variable with
  \<open>IS_VERCEL\<close>, the file otherwise; \<open>None\<close> where that is not an array of appointments.
\<close>

definition stored :: "bool \<Rightarrow> state \<Rightarrow> appointment list option" where
  "stored IS_VERCEL s =
     (case (if IS_VERCEL then Some (inMemoryAppointments s) else read_and_parse (data_file s)) of
        Some (Array appointments) \<Rightarrow> Some appointments
      | _ \<Rightarrow> None)"

subsection \<open>Example values\<close>

text \<open>
  The requests of the booking scenarios: two patients asking for the same slot, a third
  asking for another one and giving an address; a clock, a mail configuration without
  credentials and one whose server rejects everything; the state of a process started
  without a data file.
\<close>

definition asha :: req_body where
  "asha = \<lparr>appointment_date = Some ''2024-06-01'', appointment_time = Some ''10:00'',
            patientName = Some ''Asha'', patientEmail = None, patientPhone = None,
            patientAdhaar = None, concern = None\<rparr>"

definition ravi :: req_body where
  "ravi = \<lparr>appointment_date = Some ''2024-06-01'', appointment_time = Some ''10:00'',
            patientName = Some ''Ravi'', patientEmail = None, patientPhone = None,
            patientAdhaar = None, concern = None\<rparr>"

definition meera :: req_body where
  "meera = \<lparr>appointment_date = Some ''2024-06-01'', appointment_time = Some ''11:00'',
             patientName = Some ''Meera'', patientEmail = Some ''meera@example.org'',
             patientPhone = None, patientAdhaar = None, concern = Some ''sleep''\<rparr>"

definition no_credentials :: mail_env where
  "no_credentials = \<lparr>EMAIL_USER = None, EMAIL_PASS = None, EMAIL_TO = None,
                      verify = Resolves, sendMail_admin = Resolves,
                      sendMail_patient = Resolves\<rparr>"

definition rejecting :: mail_env where
  "rejecting = \<lparr>EMAIL_USER = Some ''clinic@example.org'', EMAIL_PASS = Some ''secret'',
                 EMAIL_TO = None, verify = Rejects ''EAUTH'',
                 sendMail_admin = Rejects ''EAUTH'', sendMail_patient = Rejects ''ECONNECTION''\<rparr>"

definition at_time :: "int \<Rightarrow> bool \<Rightarrow> env" where
  "at_time t ok = \<lparr>date_now = t, iso_now = ''2024-05-30T09:00:00.000Z'',
                   write_succeeds = ok, mail = no_credentials\<rparr>"

definition fresh :: state where
  "fresh = \<lparr>data_file = Holds (Array []), inMemoryAppointments = Array []\<rparr>"

definition booked_asha :: state where
  "booked_asha = \<lparr>data_file = Holds (Array [newAppointment (at_time 1 True) asha]),
                   inMemoryAppointments = Array []\<rparr>"

definition corrupt :: state where
  "corrupt = \<lparr>data_file = Parse_fails,
               inMemoryAppointments = Array [newAppointment (at_time 1 True) asha]\<rparr>"

subsection \<open>Notions the properties are stated with\<close>

text \<open>
  The (date, time) pair of a stored record; a request that passes the check of line 86;
  the status of a response.
\<close>

definition slot :: "appointment \<Rightarrow> string option \<times> string option" where
  "slot a = (appointment_date a, appointment_time a)"

definition valid :: "req_body \<Rightarrow> bool" where
  "valid b = (truthy (appointment_date b) \<and> truthy (appointment_time b) \<and> truthy (patientName b))"

fun status :: "response \<Rightarrow> nat" where
  "status (Response n j) = n"

text \<open>
  Both collections of a state are free of double bookings: the variable, and the file
  where it parses.
\<close>

fun slots_distinct :: "parsed \<Rightarrow> bool" where
  "slots_distinct Not_array = True"
| "slots_distinct (Array xs) = distinct (map slot xs)"

definition consistent :: "state \<Rightarrow> bool" where
  "consistent s =
     (slots_distinct (inMemoryAppointments s) \<and>
      (case read_and_parse (data_file s) of Some d \<Rightarrow> slots_distinct d | None \<Rightarrow> True))"


text \<open>Every write of the run's bookings throws.\<close>

fun writes_fail :: "request list \<Rightarrow> bool" where
  "writes_fail [] = True"
| "writes_fail (POST e b # rs) = (\<not> write_succeeds e \<and> writes_fail rs)"
| "writes_fail (GET # rs) = writes_fail rs"

text \<open>
  Bookings given as pairs of what the handler reads from outside and the request body: the
  request, the slot it asks for, the record it creates; and a list of them in which every
  request is valid and every write goes through (\<open>v\<close> is \<open>IS_VERCEL\<close>, where nothing
  is written to the file).
\<close>

definition book :: "env \<times> req_body \<Rightarrow> request" where
  "book p = POST (fst p) (snd p)"

definition wanted :: "env \<times> req_body \<Rightarrow> string option \<times> string option" where
  "wanted p = (appointment_date (snd p), appointment_time (snd p))"

definition record_of :: "env \<times> req_body \<Rightarrow> appointment" where
  "record_of p = newAppointment (fst p) (snd p)"

fun persisted :: "bool \<Rightarrow> (env \<times> req_body) list \<Rightarrow> bool" where
  "persisted v [] = True"
| "persisted v ((e, b) # ebs) = (valid b \<and> (v \<or> write_succeeds e) \<and> persisted v ebs)"

section \<open>Properties\<close>

subsection \<open>The four ways a booking ends\<close>

lemma post_invalid:
  "\<not> valid b \<Longrightarrow> post_appointments v e b s =
     \<lparr>response = Response 400 (Error_body ''Missing required fields''), after = s, effects = []\<rparr>"
  by (auto simp: post_appointments_def valid_def)

lemma post_not_array:
  "valid b \<Longrightarrow> load v s = Not_array \<Longrightarrow> post_appointments v e b s =
     \<lparr>response = Response 500 (Error_body ''Failed to save appointment''), after = s,
      effects = load_effects v\<rparr>"
  by (simp add: post_appointments_def valid_def)

lemma post_taken:
  "valid b \<Longrightarrow> load v s = Array xs \<Longrightarrow> isTaken xs b \<Longrightarrow> post_appointments v e b s =
     \<lparr>response = Response 409 (Error_body ''This time slot is already booked.''), after = s,
      effects = load_effects v\<rparr>"
  by (simp add: post_appointments_def valid_def)

lemma post_booked:
  "valid b \<Longrightarrow> load v s = Array xs \<Longrightarrow> \<not> isTaken xs b \<Longrightarrow> post_appointments v e b s =
     \<lparr>response = Response 201 (Appointment_body (newAppointment e b)),
      after = save v e (xs @ [newAppointment e b]) s,
      effects = load_effects v @ save_effects v e (xs @ [newAppointment e b]) @ notify (mail e) b\<rparr>"
  by (simp add: post_appointments_def valid_def Let_def)

subsection \<open>Storage\<close>

lemma stored_load: "stored v s = Some xs \<Longrightarrow> load v s = Array xs"
  by (auto simp: stored_def load_def split: if_splits option.splits parsed.splits)

lemma load_Holds: "data_file s = Holds d \<Longrightarrow> load False s = d"
  by (simp add: load_def)

lemma stored_save:
  "stored v (save v e ys s) = (if v \<or> write_succeeds e then Some ys else stored v s)"
  by (simp add: stored_def save_def)

lemma get_stored:
  "stored v s = Some xs \<Longrightarrow>
     get_appointments v s =
       \<lparr>response = Response 200 (Appointments_body (Array xs)), after = s,
        effects = load_effects v\<rparr>"
  by (auto simp: stored_def get_appointments_def load_effects_def
        split: if_splits option.splits parsed.splits)

lemma after_get: "after (get_appointments v s) = s"
  by (simp add: get_appointments_def split: option.splits)

lemma isTaken_slot: "isTaken xs b = ((appointment_date b, appointment_time b) \<in> slot ` set xs)"
  by (force simp: isTaken_def slot_def list_ex_iff image_iff)

lemma slot_newAppointment: "slot (newAppointment e b) = (appointment_date b, appointment_time b)"
  by (simp add: slot_def newAppointment_def)

lemma isTaken_not_member: "\<not> isTaken xs b \<Longrightarrow> newAppointment e b \<notin> set xs"
  using slot_newAppointment [of e b] by (force simp: isTaken_slot image_iff)

lemma snd_serve_Cons: "snd (serve v (r # rs) s) = snd (serve v rs (after (handle v r s)))"
  by (simp add: Let_def split: prod.splits)

lemma fst_serve_Cons:
  "fst (serve v (r # rs) s) = response (handle v r s) # fst (serve v rs (after (handle v r s)))"
  by (simp add: Let_def split: prod.splits)

subsection \<open>Evaluating the examples\<close>

lemmas handler_defs =
  post_appointments_def get_appointments_def load_def load_effects_def save_def
  save_effects_def isTaken_def notify_def truthy_def or_else_def Let_def

text \<open>
  A process started in the file mode without a data file writes the empty array: its
  first state is \<open>fresh\<close>. With \<open>IS_VERCEL\<close> the variable starts empty.
\<close>

lemma startup_fresh:
  "startup False True Missing = Some fresh"
  "startup True w (Holds (Array [])) = Some fresh"
  "startup False False Missing = None"
  by (simp_all add: startup_def fresh_def)

lemma example_simps:
  "valid asha" "valid ravi" "valid meera"
  "stored v fresh = Some []" "load v fresh = Array []"
  by (simp_all add: valid_def truthy_def asha_def ravi_def meera_def stored_def load_def
        fresh_def)

text \<open>
  The scenario of two requests for one slot, in either mode: the first is booked, the
  second is refused, and one record is listed.
\<close>

lemma scenario_same_slot_twice:
  "fst (serve v [POST (at_time 1 True) asha, POST (at_time 2 True) ravi, GET] fresh)
     = [Response 201 (Appointment_body (newAppointment (at_time 1 True) asha)),
        Response 409 (Error_body ''This time slot is already booked.''),
        Response 200 (Appointments_body (Array [newAppointment (at_time 1 True) asha]))]"
  by (cases v) (simp_all add: handler_defs newAppointment_def asha_def ravi_def fresh_def
        at_time_def)

subsection \<open>One booking per slot\<close>

lemma stored_post:
  assumes "stored v s = Some xs"
  shows "(status (response (post_appointments v e b s)) \<noteq> 201
          \<and> stored v (after (post_appointments v e b s)) = Some xs)
       \<or> (status (response (post_appointments v e b s)) = 201 \<and> \<not> isTaken xs b
          \<and> (stored v (after (post_appointments v e b s)) = Some xs
             \<or> stored v (after (post_appointments v e b s)) = Some (xs @ [newAppointment e b])))"
proof (cases "valid b")
  case False
  then show ?thesis using assms by (simp add: post_invalid)
next
  case True
  note ld = stored_load [OF assms]
  show ?thesis
  proof (cases "isTaken xs b")
    case True
    with \<open>valid b\<close> ld assms show ?thesis by (simp add: post_taken)
  next
    case False
    with \<open>valid b\<close> ld assms show ?thesis by (auto simp: post_booked stored_save)
  qed
qed

lemma stored_handle:
  assumes "stored v s = Some xs" and "distinct (map slot xs)"
  shows "\<exists>ys. stored v (after (handle v r s)) = Some (xs @ ys) \<and> distinct (map slot (xs @ ys))"
proof (cases r)
  case GET
  with assms have "stored v (after (handle v r s)) = Some (xs @ [])
      \<and> distinct (map slot (xs @ []))"
    by (simp add: after_get)
  then show ?thesis by blast
next
  case (POST e b)
  from stored_post [OF assms(1), of e b]
  consider "stored v (after (post_appointments v e b s)) = Some xs"
    | "\<not> isTaken xs b" "stored v (after (post_appointments v e b s)) = Some (xs @ [newAppointment e b])"
    by blast
  then show ?thesis
  proof cases
    case 1
    with POST assms have "stored v (after (handle v r s)) = Some (xs @ [])
        \<and> distinct (map slot (xs @ []))"
      by simp
    then show ?thesis by blast
  next
    case 2
    from 2(1) assms(2) have "distinct (map slot (xs @ [newAppointment e b]))"
      by (simp add: isTaken_slot slot_newAppointment)
    with 2(2) POST show ?thesis by auto
  qed
qed

text \<open>
  Requests are served one after another, from a state whose stored collection \<open>xs\<close>
  has no two appointments with the same (date, time) pair. Then the collection stored
  afterwards is \<open>xs\<close> followed by the records booked since: the records that were
  there are still there, unchanged and in place, records are only appended, and no two
  records of the whole collection have the same (date, time) pair.
\<close>

lemma stored_slots_stay_distinct:
  assumes "stored v s = Some xs" and "distinct (map slot xs)"
  shows "\<exists>ys. stored v (snd (serve v rs s)) = Some (xs @ ys) \<and> distinct (map slot (xs @ ys))"
  using assms
proof (induction rs arbitrary: s xs)
  case Nil
  then have "stored v (snd (serve v [] s)) = Some (xs @ []) \<and> distinct (map slot (xs @ []))"
    by simp
  then show ?case by blast
next
  case (Cons r rs)
  from stored_handle [OF Cons.prems] obtain ys where
    1: "stored v (after (handle v r s)) = Some (xs @ ys)" and 2: "distinct (map slot (xs @ ys))"
    by blast
  from Cons.IH [OF 1 2] obtain zs where
    3: "stored v (snd (serve v rs (after (handle v r s)))) = Some ((xs @ ys) @ zs)"
    and 4: "distinct (map slot ((xs @ ys) @ zs))"
    by blast
  from 3 4 have "stored v (snd (serve v (r # rs) s)) = Some (xs @ (ys @ zs))
      \<and> distinct (map slot (xs @ (ys @ zs)))"
    by (simp add: snd_serve_Cons del: serve.simps)
  then show ?case by blast
qed

text \<open>
  The same holds of the two collections together, in either mode: where neither the
  variable nor the file holds a double booking, no run of requests produces one in
  either.
\<close>

lemma consistent_load: "consistent s \<Longrightarrow> slots_distinct (load v s)"
  by (auto simp: consistent_def load_def split: option.splits)

lemma consistent_save:
  "consistent s \<Longrightarrow> distinct (map slot ys) \<Longrightarrow> consistent (save v e ys s)"
  by (auto simp: consistent_def save_def split: option.splits)

lemma consistent_post:
  assumes "consistent s"
  shows "consistent (after (post_appointments v e b s))"
proof (cases "valid b")
  case False
  with assms show ?thesis by (simp add: post_invalid)
next
  case True
  show ?thesis
  proof (cases "load v s")
    case Not_array
    with True assms show ?thesis by (simp add: post_not_array)
  next
    case (Array xs)
    with consistent_load [OF assms, of v] have d: "distinct (map slot xs)" by simp
    show ?thesis
    proof (cases "isTaken xs b")
      case True
      with \<open>valid b\<close> Array assms show ?thesis by (simp add: post_taken)
    next
      case False
      with d have "distinct (map slot (xs @ [newAppointment e b]))"
        by (simp add: isTaken_slot slot_newAppointment)
      with False \<open>valid b\<close> Array assms show ?thesis
        by (simp add: post_booked consistent_save)
    qed
  qed
qed

lemma collections_stay_consistent:
  "consistent s \<Longrightarrow> consistent (snd (serve v rs s))"
proof (induction rs arbitrary: s)
  case Nil
  then show ?case by simp
next
  case (Cons r rs)
  from Cons.prems have "consistent (after (handle v r s))"
    by (cases r) (simp_all add: consistent_post after_get)
  from Cons.IH [OF this] show ?case
    by (simp add: snd_serve_Cons del: serve.simps)
qed

text \<open>
  A booking that is answered 201 and persisted (the mode is \<open>IS_VERCEL\<close>, or the
  write goes through) appends its record to the stored collection, and the slot of that
  record is the slot of no record stored before.
\<close>

lemma persisted_booking_appends:
  assumes "stored v s = Some xs" and "status (response (post_appointments v e b s)) = 201"
    and "v \<or> write_succeeds e"
  shows "stored v (after (post_appointments v e b s)) = Some (xs @ [newAppointment e b])
       \<and> slot (newAppointment e b) \<notin> slot ` set xs"
proof -
  have v: "valid b"
  proof (rule ccontr)
    assume "\<not> valid b"
    with assms(2) show False by (simp add: post_invalid)
  qed
  have nt: "\<not> isTaken xs b"
  proof
    assume "isTaken xs b"
    with v stored_load [OF assms(1)] assms(2) show False by (simp add: post_taken)
  qed
  from post_booked [OF v stored_load [OF assms(1)] nt, of e] assms(3) nt show ?thesis
    by (auto simp: stored_save isTaken_slot slot_newAppointment)
qed

text \<open>
  Claim C1 says that the stored collection never holds two appointments of one slot, that
  every successful booking appends a record whose slot differs from those of all existing
  records, and that no operation modifies an existing record. The first holds. The second
  does not where the write to the file fails: the booking is answered 201 and the stored
  collection is left as it was, so a second request for the same slot finds it free and is
  answered 201 as well. Both requests are confirmed for one slot, neither record is
  stored, and the second booking replaces the first record in the variable
  \<open>inMemoryAppointments\<close>, which the handler assigns and never reads in this mode.
\<close>

theorem same_slot_confirmed_twice_when_writes_fail:
  assumes "valid b" and "valid b'"
    and "appointment_date b' = appointment_date b"
    and "appointment_time b' = appointment_time b"
    and "data_file s = Holds (Array xs)" and "\<not> isTaken xs b"
    and "\<not> write_succeeds e" and "\<not> write_succeeds e'"
  shows "fst (serve False [POST e b, POST e' b'] s)
           = [Response 201 (Appointment_body (newAppointment e b)),
              Response 201 (Appointment_body (newAppointment e' b'))]
       \<and> slot (newAppointment e' b') = slot (newAppointment e b)
       \<and> stored False (snd (serve False [POST e b, POST e' b'] s)) = Some xs
       \<and> inMemoryAppointments (snd (serve False [POST e b, POST e' b'] s))
           = Array (xs @ [newAppointment e' b'])"
proof -
  let ?s1 = "after (post_appointments False e b s)"
  note p1 = post_booked [OF assms(1) load_Holds [OF assms(5)] assms(6), of e]
  from p1 assms(5,7) have f1: "data_file ?s1 = Holds (Array xs)"
    by (simp add: save_def)
  from assms(3,4,6) have nt: "\<not> isTaken xs b'"
    by (simp add: isTaken_slot)
  note p2 = post_booked [OF assms(2) load_Holds [OF f1] nt, of e']
  have r: "fst (serve False [POST e b, POST e' b'] s)
           = [Response 201 (Appointment_body (newAppointment e b)),
              Response 201 (Appointment_body (newAppointment e' b'))]"
    by (simp add: fst_serve_Cons p2 del: serve.simps(2)) (simp add: p1)
  have a: "snd (serve False [POST e b, POST e' b'] s) = after (post_appointments False e' b' ?s1)"
    by (simp add: snd_serve_Cons del: serve.simps(2))
  from p2 assms(8) f1 assms(5) have
    st: "stored False (after (post_appointments False e' b' ?s1)) = Some xs"
    and m: "inMemoryAppointments (after (post_appointments False e' b' ?s1))
              = Array (xs @ [newAppointment e' b'])"
    by (simp_all add: save_def stored_def)
  from assms(3,4) have sl: "slot (newAppointment e' b') = slot (newAppointment e b)"
    by (simp add: slot_newAppointment)
  from r a st m sl show ?thesis by simp
qed

theorem same_slot_confirmed_twice_when_writes_fail_witness:
  "valid asha \<and> valid ravi \<and> appointment_date ravi = appointment_date asha \<and>
   appointment_time ravi = appointment_time asha \<and>
   data_file fresh = Holds (Array []) \<and> \<not> isTaken [] asha \<and>
   \<not> write_succeeds (at_time 1 False) \<and> \<not> write_succeeds (at_time 2 False) \<and>
   fst (serve False [POST (at_time 1 False) asha, POST (at_time 2 False) ravi] fresh)
     = [Response 201 (Appointment_body (newAppointment (at_time 1 False) asha)),
        Response 201 (Appointment_body (newAppointment (at_time 2 False) ravi))] \<and>
   stored False (snd (serve False [POST (at_time 1 False) asha, POST (at_time 2 False) ravi] fresh))
     = Some [] \<and>
   inMemoryAppointments
     (snd (serve False [POST (at_time 1 False) asha, POST (at_time 2 False) ravi] fresh))
     = Array [newAppointment (at_time 2 False) ravi]"
proof -
  have v: "valid asha" "valid ravi" by (rule example_simps)+
  have d: "appointment_date ravi = appointment_date asha"
    and tm: "appointment_time ravi = appointment_time asha"
    by (simp_all add: asha_def ravi_def)
  have f: "data_file fresh = Holds (Array [])" by (simp add: fresh_def)
  have t: "\<not> isTaken [] asha" by (simp add: isTaken_def)
  have w: "\<not> write_succeeds (at_time 1 False)" "\<not> write_succeeds (at_time 2 False)"
    by (simp_all add: at_time_def)
  from same_slot_confirmed_twice_when_writes_fail [OF v d tm f t w] v d tm f t w
  show ?thesis by simp
qed

subsection \<open>The conflict check\<close>

text \<open>
  Claim C2. A request that passes validation is answered 409 with the body
  \<open>{ error: "This time slot is already booked." }\<close> if and only if a record of the
  collection loaded has the request's \<open>appointment_date\<close> and its
  \<open>appointment_time\<close>, both compared as they are written; and a request answered so
  leaves the state as it was.
\<close>

theorem slot_taken_iff:
  assumes "valid b"
  shows "(response (post_appointments v e b s)
            = Response 409 (Error_body ''This time slot is already booked.'')
          \<longleftrightarrow> (\<exists>xs. load v s = Array xs \<and>
                (\<exists>a \<in> set xs. appointment_date a = appointment_date b \<and>
                               appointment_time a = appointment_time b)))
       \<and> (response (post_appointments v e b s)
            = Response 409 (Error_body ''This time slot is already booked.'')
          \<longrightarrow> after (post_appointments v e b s) = s)"
proof (cases "load v s")
  case Not_array
  with assms show ?thesis by (simp add: post_not_array)
next
  case (Array xs)
  show ?thesis
  proof (cases "isTaken xs b")
    case True
    with assms Array show ?thesis
      by (simp add: post_taken) (simp add: isTaken_def list_ex_iff)
  next
    case False
    with assms Array show ?thesis
      by (simp add: post_booked) (simp add: isTaken_def list_ex_iff)
  qed
qed

theorem slot_taken_iff_witness:
  "valid ravi \<and>
   response (post_appointments False (at_time 2 True) ravi booked_asha)
     = Response 409 (Error_body ''This time slot is already booked.'') \<and>
   after (post_appointments False (at_time 2 True) ravi booked_asha) = booked_asha \<and>
   response (post_appointments False (at_time 2 True) meera booked_asha)
     \<noteq> Response 409 (Error_body ''This time slot is already booked.'')"
proof -
  have h: "valid ravi" and h': "valid meera" by (rule example_simps)+
  have l: "load False booked_asha = Array [newAppointment (at_time 1 True) asha]"
    by (simp add: load_def booked_asha_def)
  from slot_taken_iff [OF h, of False "at_time 2 True" booked_asha]
    slot_taken_iff [OF h', of False "at_time 2 True" booked_asha] h l
  show ?thesis
    by (simp add: newAppointment_def asha_def ravi_def meera_def)
qed

text \<open>
  The comparison is of the strings as written: a record for \<open>2024-01-01\<close> does not
  take the slot of a request for \<open>2024-1-1\<close>.
\<close>

lemma isTaken_literal:
  "\<not> isTaken [newAppointment e (asha\<lparr>appointment_date := Some ''2024-01-01''\<rparr>)]
       (ravi\<lparr>appointment_date := Some ''2024-1-1''\<rparr>)"
  by (simp add: isTaken_def newAppointment_def asha_def ravi_def)

subsection \<open>Validation\<close>

text \<open>
  Claim C4. A request in which \<open>appointment_date\<close>, \<open>appointment_time\<close> or
  \<open>patientName\<close> is missing or is the empty string is answered 400 with the body
  \<open>{ error: "Missing required fields" }\<close>. The state is left as it was, and the
  handler has made no call to the outside: the file is neither read nor written. This
  holds in every state, also one whose file cannot be read.
\<close>

theorem missing_fields_rejected:
  assumes "appointment_date b = None \<or> appointment_date b = Some []
         \<or> appointment_time b = None \<or> appointment_time b = Some []
         \<or> patientName b = None \<or> patientName b = Some []"
  shows "post_appointments v e b s =
     \<lparr>response = Response 400 (Error_body ''Missing required fields''), after = s, effects = []\<rparr>"
proof -
  from assms have "\<not> valid b" by (auto simp: valid_def truthy_def)
  then show ?thesis by (rule post_invalid)
qed

theorem missing_fields_rejected_witness:
  "patientName (asha\<lparr>patientName := Some []\<rparr>) = Some [] \<and>
   post_appointments False (at_time 2 True) (asha\<lparr>patientName := Some []\<rparr>) corrupt =
     \<lparr>response = Response 400 (Error_body ''Missing required fields''),
      after = corrupt, effects = []\<rparr>"
proof -
  have h: "patientName (asha\<lparr>patientName := Some []\<rparr>) = Some []" by simp
  from missing_fields_rejected [of "asha\<lparr>patientName := Some []\<rparr>" False "at_time 2 True" corrupt] h
  show ?thesis by simp
qed

subsection \<open>Notification\<close>

lemma newAppointment_mail: "newAppointment (e\<lparr>mail := m\<rparr>) b = newAppointment e b"
  by (simp add: newAppointment_def)

lemma save_mail: "save v (e\<lparr>mail := m\<rparr>) ys s = save v e ys s"
  by (simp add: save_def)

text \<open>
  Claim C6. A request passes validation and the conflict check, and its record is
  persisted (the mode is \<open>IS_VERCEL\<close>, or the write goes through). Whatever the mail
  settings are and whatever the mail server answers (\<open>m\<close> is any of them: no
  credentials, a rejected \<open>verify\<close>, a rejected \<open>sendMail\<close> with any error code), the
  answer is 201 with the created record, the state left is the one the save left, and
  the stored collection ends with the record.
\<close>

theorem notification_never_changes_result:
  assumes "valid b" and "load v s = Array xs" and "\<not> isTaken xs b"
    and "v \<or> write_succeeds e"
  shows "response (post_appointments v (e\<lparr>mail := m\<rparr>) b s)
           = Response 201 (Appointment_body (newAppointment e b))
       \<and> after (post_appointments v (e\<lparr>mail := m\<rparr>) b s) = save v e (xs @ [newAppointment e b]) s
       \<and> stored v (after (post_appointments v (e\<lparr>mail := m\<rparr>) b s))
           = Some (xs @ [newAppointment e b])"
  using assms by (auto simp: post_booked stored_save newAppointment_mail save_mail)

theorem notification_never_changes_result_witness:
  "valid meera \<and> load False fresh = Array [] \<and> \<not> isTaken [] meera \<and>
   write_succeeds (at_time 3 True) \<and>
   response (post_appointments False ((at_time 3 True)\<lparr>mail := rejecting\<rparr>) meera fresh)
     = Response 201 (Appointment_body (newAppointment (at_time 3 True) meera)) \<and>
   stored False (after (post_appointments False ((at_time 3 True)\<lparr>mail := rejecting\<rparr>) meera fresh))
     = Some [newAppointment (at_time 3 True) meera] \<and>
   notify rejecting meera =
     [Verify (Rejects ''EAUTH''),
      Send_mail \<lparr>msg_from = Some ''clinic@example.org'', msg_to = Some ''clinic@example.org''\<rparr>
        (Rejects ''EAUTH''),
      Send_mail \<lparr>msg_from = Some ''clinic@example.org'', msg_to = Some ''meera@example.org''\<rparr>
        (Rejects ''ECONNECTION'')]"
proof -
  have h: "valid meera" "load False fresh = Array []" by (rule example_simps)+
  have t: "\<not> isTaken [] meera" by (simp add: isTaken_def)
  have w: "False \<or> write_succeeds (at_time 3 True)" by (simp add: at_time_def)
  have n: "notify rejecting meera =
     [Verify (Rejects ''EAUTH''),
      Send_mail \<lparr>msg_from = Some ''clinic@example.org'', msg_to = Some ''clinic@example.org''\<rparr>
        (Rejects ''EAUTH''),
      Send_mail \<lparr>msg_from = Some ''clinic@example.org'', msg_to = Some ''meera@example.org''\<rparr>
        (Rejects ''ECONNECTION'')]"
    by (simp add: notify_def rejecting_def meera_def truthy_def or_else_def)
  from notification_never_changes_result [OF h t w, of rejecting] h t w n
  show ?thesis by (simp add: stored_save)
qed

subsection \<open>The file mode and the variable\<close>

text \<open>
  Claim C9. Without \<open>IS_VERCEL\<close>, the collection a booking checks and appends to is
  what reading and parsing the file gives (the empty array where that fails), whatever
  the variable \<open>inMemoryAppointments\<close> holds. The response, the file left and the calls
  made are the same for every value \<open>m\<close> of the variable: the booking does not read it.
  The booking leaves the variable as it was, or assigns to it the array loaded from the
  file with the new record appended.
\<close>

theorem book_ignores_memory_in_file_mode:
  "load False (s\<lparr>inMemoryAppointments := m\<rparr>)
     = (case read_and_parse (data_file s) of Some d \<Rightarrow> d | None \<Rightarrow> Array [])
   \<and> response (post_appointments False e b (s\<lparr>inMemoryAppointments := m\<rparr>))
     = response (post_appointments False e b s)
   \<and> data_file (after (post_appointments False e b (s\<lparr>inMemoryAppointments := m\<rparr>)))
     = data_file (after (post_appointments False e b s))
   \<and> effects (post_appointments False e b (s\<lparr>inMemoryAppointments := m\<rparr>))
     = effects (post_appointments False e b s)
   \<and> (inMemoryAppointments (after (post_appointments False e b (s\<lparr>inMemoryAppointments := m\<rparr>))) = m
      \<or> (\<exists>xs. load False s = Array xs \<and>
           inMemoryAppointments (after (post_appointments False e b (s\<lparr>inMemoryAppointments := m\<rparr>)))
             = Array (xs @ [newAppointment e b])))"
proof -
  have ld: "load False (s\<lparr>inMemoryAppointments := m\<rparr>) = load False s"
    by (simp add: load_def)
  show ?thesis
  proof (cases "valid b")
    case False
    then show ?thesis by (simp add: post_invalid) (simp add: load_def)
  next
    case True
    show ?thesis
    proof (cases "load False s")
      case Not_array
      with True ld show ?thesis by (simp add: post_not_array) (simp add: load_def)
    next
      case (Array xs)
      show ?thesis
      proof (cases "isTaken xs b")
        case True
        with \<open>valid b\<close> Array ld show ?thesis by (simp add: post_taken) (simp add: load_def)
      next
        case False
        with \<open>valid b\<close> Array ld show ?thesis
          by (simp add: post_booked) (simp add: load_def save_def)
      qed
    qed
  qed
qed

theorem book_ignores_memory_in_file_mode_witness:
  "response (post_appointments False (at_time 2 False) ravi
       (fresh\<lparr>inMemoryAppointments := Array [newAppointment (at_time 1 False) asha]\<rparr>))
     = response (post_appointments False (at_time 2 False) ravi fresh) \<and>
   response (post_appointments False (at_time 2 False) ravi fresh)
     = Response 201 (Appointment_body (newAppointment (at_time 2 False) ravi))"
proof -
  have "response (post_appointments False (at_time 2 False) ravi fresh)
     = Response 201 (Appointment_body (newAppointment (at_time 2 False) ravi))"
    by (simp add: post_booked example_simps isTaken_def)
  with book_ignores_memory_in_file_mode
    [where s = fresh and m = "Array [newAppointment (at_time 1 False) asha]"
       and e = "at_time 2 False" and b = ravi]
  show ?thesis by simp
qed

text \<open>
  Claim C10. Without \<open>IS_VERCEL\<close>, when reading or parsing the file fails, a valid
  request is handled with the empty array: no slot is taken in it, the answer is 201,
  and where the write goes through the file holds the new record and nothing else.
\<close>

theorem unreadable_file_is_overwritten:
  assumes "valid b" and "read_and_parse (data_file s) = None" and "write_succeeds e"
  shows "load False s = Array [] \<and> \<not> isTaken [] b' \<and>
    response (post_appointments False e b s) = Response 201 (Appointment_body (newAppointment e b)) \<and>
    data_file (after (post_appointments False e b s)) = Holds (Array [newAppointment e b])"
proof -
  from assms(2) have ld: "load False s = Array []" by (simp add: load_def)
  have nt: "\<not> isTaken [] c" for c by (simp add: isTaken_def)
  from post_booked [OF assms(1) ld nt] assms(3) ld nt show ?thesis
    by (simp add: save_def)
qed

theorem unreadable_file_is_overwritten_witness:
  "valid ravi \<and> read_and_parse (data_file corrupt) = None \<and> write_succeeds (at_time 2 True) \<and>
   response (post_appointments False (at_time 2 True) ravi corrupt)
     = Response 201 (Appointment_body (newAppointment (at_time 2 True) ravi)) \<and>
   data_file (after (post_appointments False (at_time 2 True) ravi corrupt))
     = Holds (Array [newAppointment (at_time 2 True) ravi])"
proof -
  have h: "valid ravi" by (rule example_simps)
  have r: "read_and_parse (data_file corrupt) = None" by (simp add: corrupt_def)
  have w: "write_succeeds (at_time 2 True)" by (simp add: at_time_def)
  from unreadable_file_is_overwritten [OF h r w] h r w show ?thesis by simp
qed

subsection \<open>A write that fails\<close>

text \<open>
  Claim C3 says that a booking whose write to the file fails is still answered 201, that
  the updated collection is kept in memory, and that a later listing shows the record.
  The first two hold. The third does not: the handler of \<open>GET\<close> reads the file in this
  mode and never the variable, so the listing after the booking is the collection the
  file held before it, in which the new record does not occur.
\<close>

theorem fallback_is_never_listed:
  assumes "valid b" and "data_file s = Holds (Array xs)" and "\<not> isTaken xs b"
    and "\<not> write_succeeds e"
  shows "response (post_appointments False e b s)
           = Response 201 (Appointment_body (newAppointment e b))
       \<and> inMemoryAppointments (after (post_appointments False e b s))
           = Array (xs @ [newAppointment e b])
       \<and> response (get_appointments False (after (post_appointments False e b s)))
           = Response 200 (Appointments_body (Array xs))
       \<and> newAppointment e b \<notin> set xs"
  using assms post_booked [OF assms(1) load_Holds [OF assms(2)] assms(3), of e]
  by (simp add: save_def get_appointments_def isTaken_not_member)

theorem fallback_is_never_listed_witness:
  "valid asha \<and> data_file fresh = Holds (Array []) \<and> \<not> isTaken [] asha \<and>
   \<not> write_succeeds (at_time 1 False) \<and>
   response (post_appointments False (at_time 1 False) asha fresh)
     = Response 201 (Appointment_body (newAppointment (at_time 1 False) asha)) \<and>
   inMemoryAppointments (after (post_appointments False (at_time 1 False) asha fresh))
     = Array [newAppointment (at_time 1 False) asha] \<and>
   response (get_appointments False (after (post_appointments False (at_time 1 False) asha fresh)))
     = Response 200 (Appointments_body (Array []))"
proof -
  have h: "valid asha" by (rule example_simps)
  have f: "data_file fresh = Holds (Array [])" by (simp add: fresh_def)
  have t: "\<not> isTaken [] asha" by (simp add: isTaken_def)
  have w: "\<not> write_succeeds (at_time 1 False)" by (simp add: at_time_def)
  from fallback_is_never_listed [OF h f t w] h f t w show ?thesis by simp
qed

subsection \<open>Booking and listing\<close>

text \<open>
  Where the record is persisted (the mode is \<open>IS_VERCEL\<close>, or the write goes through),
  the listing after a booking is the collection before it with the returned record
  appended: the entry listed is the record returned, with every property the same.
\<close>

lemma booked_record_is_listed:
  assumes "valid b" and "stored v s = Some xs" and "\<not> isTaken xs b" and "v \<or> write_succeeds e"
  shows "response (post_appointments v e b s) = Response 201 (Appointment_body (newAppointment e b))"
    and "response (get_appointments v (after (post_appointments v e b s)))
           = Response 200 (Appointments_body (Array (xs @ [newAppointment e b])))"
proof -
  note p = post_booked [OF assms(1) stored_load [OF assms(2)] assms(3), of e]
  show "response (post_appointments v e b s) = Response 201 (Appointment_body (newAppointment e b))"
    by (simp add: p)
  from assms(4) have "stored v (after (post_appointments v e b s)) = Some (xs @ [newAppointment e b])"
    by (auto simp: p stored_save)
  then show "response (get_appointments v (after (post_appointments v e b s)))
           = Response 200 (Appointments_body (Array (xs @ [newAppointment e b])))"
    by (simp add: get_stored)
qed

text \<open>
  Claim C8 says that the record a booking returns is equal, property by property, to its
  entry in a later listing. Where the write to the file fails this does not hold: the
  booking is answered 201 with a record, and the listing that follows is the collection
  the file held before, which has no entry for it.
\<close>

theorem returned_record_missing_from_listing:
  assumes "valid b" and "data_file s = Holds (Array xs)" and "\<not> isTaken xs b"
    and "\<not> write_succeeds e"
  shows "\<exists>a. fst (serve False [POST e b, GET] s)
           = [Response 201 (Appointment_body a), Response 200 (Appointments_body (Array xs))]
         \<and> a \<notin> set xs"
proof -
  from post_booked [OF assms(1) load_Holds [OF assms(2)] assms(3), of e] assms
  have "fst (serve False [POST e b, GET] s)
           = [Response 201 (Appointment_body (newAppointment e b)),
              Response 200 (Appointments_body (Array xs))]"
    by (simp add: save_def get_appointments_def)
  with isTaken_not_member [OF assms(3)] show ?thesis by blast
qed

theorem returned_record_missing_from_listing_witness:
  "valid meera \<and> data_file booked_asha = Holds (Array [newAppointment (at_time 1 True) asha]) \<and>
   \<not> isTaken [newAppointment (at_time 1 True) asha] meera \<and>
   \<not> write_succeeds (at_time 2 False) \<and>
   (\<exists>a. fst (serve False [POST (at_time 2 False) meera, GET] booked_asha)
           = [Response 201 (Appointment_body a),
              Response 200 (Appointments_body (Array [newAppointment (at_time 1 True) asha]))]
         \<and> a \<notin> set [newAppointment (at_time 1 True) asha])"
proof -
  have h: "valid meera" by (rule example_simps)
  have f: "data_file booked_asha = Holds (Array [newAppointment (at_time 1 True) asha])"
    by (simp add: booked_asha_def)
  have t: "\<not> isTaken [newAppointment (at_time 1 True) asha] meera"
    by (simp add: isTaken_def newAppointment_def asha_def meera_def)
  have w: "\<not> write_succeeds (at_time 2 False)" by (simp add: at_time_def)
  from returned_record_missing_from_listing [OF h f t w] h f t w show ?thesis by blast
qed

text \<open>
  Valid requests for slots that differ from one another and from those stored, each of
  them persisted: every one is answered 201 with its record, and the listing that
  follows is the collection stored before with the records appended in the order of the
  bookings.
\<close>

lemma wanted_pair: "wanted (e, b) = (appointment_date b, appointment_time b)"
  by (simp add: wanted_def)

lemma bookings_all_listed:
  assumes "persisted v ps" and "stored v s = Some xs"
    and "distinct (map slot xs @ map wanted ps)"
  shows "fst (serve v (map book ps @ [GET]) s)
       = map (\<lambda>p. Response 201 (Appointment_body (record_of p))) ps
         @ [Response 200 (Appointments_body (Array (xs @ map record_of ps)))]"
  using assms
proof (induction ps arbitrary: s xs)
  case Nil
  then show ?case by (simp add: get_stored)
next
  case (Cons p ps)
  obtain e b where p: "p = (e, b)" by (cases p)
  from Cons.prems(1) p have v: "valid b" and w: "v \<or> write_succeeds e" and r: "persisted v ps"
    by simp_all
  from Cons.prems(3) p have nt: "\<not> isTaken xs b"
    by (simp add: isTaken_slot wanted_pair)
  note pb = post_booked [OF v stored_load [OF Cons.prems(2)] nt, of e]
  from w Cons.prems(2) have st: "stored v (after (post_appointments v e b s))
      = Some (xs @ [newAppointment e b])"
    by (auto simp: pb stored_save)
  from Cons.prems(3) p have d: "distinct (map slot (xs @ [newAppointment e b]) @ map wanted ps)"
    by (auto simp: slot_newAppointment wanted_pair)
  from Cons.IH [OF r st d] pb p show ?case
    by (simp add: fst_serve_Cons book_def record_of_def del: serve.simps)
qed

lemma data_file_post_write_fails:
  "\<not> write_succeeds e \<Longrightarrow> data_file (after (post_appointments False e b s)) = data_file s"
  by (simp add: post_appointments_def save_def Let_def split: parsed.splits)

text \<open>
  Claim C5 says that valid requests for distinct slots, from an empty collection, are
  all answered 201 and are then listed, in order. The answers are as claimed. The
  listing is not where writes to the file fail: a run in the file mode whose writes all
  fail leaves the file as it was, so the listing that follows shows none of the records
  its bookings returned.
\<close>

theorem failed_writes_leave_listing_unchanged:
  assumes "writes_fail rs"
  shows "data_file (snd (serve False rs s)) = data_file s"
  using assms
proof (induction rs arbitrary: s rule: writes_fail.induct)
  case 1
  then show ?case by simp
next
  case (2 e b rs)
  then show ?case
    by (simp add: snd_serve_Cons data_file_post_write_fails del: serve.simps)
next
  case (3 rs)
  then show ?case
    by (simp add: snd_serve_Cons after_get del: serve.simps)
qed

theorem failed_writes_leave_listing_unchanged_witness:
  "writes_fail [POST (at_time 1 False) asha, POST (at_time 2 False) meera, GET] \<and>
   fst (serve False [POST (at_time 1 False) asha, POST (at_time 2 False) meera, GET] fresh)
     = [Response 201 (Appointment_body (newAppointment (at_time 1 False) asha)),
        Response 201 (Appointment_body (newAppointment (at_time 2 False) meera)),
        Response 200 (Appointments_body (Array []))] \<and>
   data_file (snd (serve False [POST (at_time 1 False) asha, POST (at_time 2 False) meera, GET] fresh))
     = Holds (Array [])"
proof -
  have w: "writes_fail [POST (at_time 1 False) asha, POST (at_time 2 False) meera, GET]"
    by (simp add: at_time_def)
  have r: "fst (serve False [POST (at_time 1 False) asha, POST (at_time 2 False) meera, GET] fresh)
     = [Response 201 (Appointment_body (newAppointment (at_time 1 False) asha)),
        Response 201 (Appointment_body (newAppointment (at_time 2 False) meera)),
        Response 200 (Appointments_body (Array []))]"
    by (simp add: handler_defs newAppointment_def asha_def meera_def fresh_def at_time_def)
  from failed_writes_leave_listing_unchanged [OF w, of fresh] w r show ?thesis
    by (simp add: fresh_def)
qed

subsection \<open>Identifiers\<close>

text \<open>The decimal numeral of a clock reading determines the reading.\<close>

lemma digit_cases:
  assumes "d < 10"
  shows "d = 0 \<or> d = 1 \<or> d = 2 \<or> d = 3 \<or> d = 4 \<or> d = 5 \<or> d = 6 \<or> d = 7 \<or> d = 8 \<or> d = (9::nat)"
  using assms by arith

lemma digit_inj: "d < 10 \<Longrightarrow> d' < 10 \<Longrightarrow> digit d = digit d' \<Longrightarrow> d = d'"
  using digit_cases [of d] digit_cases [of d'] by (auto simp: digit_def)

lemma digit_not_minus: "d < 10 \<Longrightarrow> digit d \<noteq> CHR ''-''"
  using digit_cases [of d] by (auto simp: digit_def)

lemma decimal_not_Nil: "decimal n \<noteq> []"
  by (subst decimal.simps) simp

lemma decimal_inj: "decimal n = decimal m \<Longrightarrow> n = m"
proof (induction n arbitrary: m rule: decimal.induct)
  case (1 n)
  show ?case
  proof (cases "n < 10")
    case True
    then have n: "decimal n = [digit n]" by (subst decimal.simps) simp
    show ?thesis
    proof (cases "m < 10")
      case True
      then have "decimal m = [digit m]" by (subst decimal.simps) simp
      with n "1.prems" \<open>n < 10\<close> True show ?thesis by (simp add: digit_inj)
    next
      case False
      then have "decimal m = decimal (m div 10) @ [digit (m mod 10)]"
        by (subst decimal.simps) simp
      with n "1.prems" show ?thesis by (simp add: decimal_not_Nil)
    qed
  next
    case False
    then have n: "decimal n = decimal (n div 10) @ [digit (n mod 10)]"
      by (subst decimal.simps) simp
    show ?thesis
    proof (cases "m < 10")
      case True
      then have "decimal m = [digit m]" by (subst decimal.simps) simp
      with n "1.prems" decimal_not_Nil [of "n div 10"] show ?thesis by auto
    next
      case m: False
      then have "decimal m = decimal (m div 10) @ [digit (m mod 10)]"
        by (subst decimal.simps) simp
      with n "1.prems" have a: "decimal (n div 10) = decimal (m div 10)"
        and b: "digit (n mod 10) = digit (m mod 10)" by simp_all
      from "1.IH" [OF False a] have "n div 10 = m div 10" .
      moreover from b have "n mod 10 = m mod 10" by (simp add: digit_inj)
      ultimately show ?thesis by (metis div_mult_mod_eq)
    qed
  qed
qed

lemma hd_decimal: "hd (decimal n) \<noteq> CHR ''-''"
proof (induction n rule: decimal.induct)
  case (1 n)
  show ?case
  proof (cases "n < 10")
    case True
    then show ?thesis by (subst decimal.simps) (simp add: digit_not_minus)
  next
    case False
    with 1 show ?thesis by (subst decimal.simps) (simp add: decimal_not_Nil)
  qed
qed

lemma decimal_not_minus: "decimal n \<noteq> CHR ''-'' # str"
  using hd_decimal [of n] by (cases "decimal n") auto

lemma toString_inj: "toString i = toString j \<longleftrightarrow> i = j"
proof
  assume eq: "toString i = toString j"
  show "i = j"
  proof (cases "i < 0")
    case i: True
    show ?thesis
    proof (cases "j < 0")
      case True
      with i eq have "nat (- i) = nat (- j)" by (simp add: toString_def decimal_inj)
      with i True show ?thesis by simp
    next
      case False
      with i eq have "decimal (nat j) = CHR ''-'' # decimal (nat (- i))"
        by (simp add: toString_def)
      with decimal_not_minus show ?thesis by blast
    qed
  next
    case i: False
    show ?thesis
    proof (cases "j < 0")
      case True
      with i eq have "decimal (nat i) = CHR ''-'' # decimal (nat (- j))"
        by (simp add: toString_def)
      with decimal_not_minus show ?thesis by blast
    next
      case False
      with i eq have "nat i = nat j" by (simp add: toString_def decimal_inj)
      with i False show ?thesis by simp
    qed
  qed
qed simp


lemma id_newAppointment: "id_appt (newAppointment e b) = Some (toString (date_now e))"
  by (simp add: newAppointment_def)

text \<open>
  Two created records have the same \<open>id\<close> exactly when they were created at the same
  reading of the clock.
\<close>

lemma same_id_iff_same_reading:
  "id_appt (newAppointment e b) = id_appt (newAppointment e' b') \<longleftrightarrow> date_now e = date_now e'"
  by (simp add: id_newAppointment toString_inj)




end
